theory Spec2Isabelle
  imports Complex_Main "HOL-Library.Word"
begin

section \<open>Data model\<close>

text \<open>
  The RPC layer of the node (\<^verbatim>\<open>rpc/rawtransaction.go\<close>) and the coin-view probe
  \<^verbatim>\<open>AccessByTxid\<close> (package \<^verbatim>\<open>lutxo\<close>). A Go pointer is an \<open>option\<close>:
  \<open>None\<close> is \<^verbatim>\<open>nil\<close>. A run-time panic is the value \<open>Inl NilDereference\<close>, an RPC
  error the value \<open>Inl (RPCError code message)\<close>.
\<close>

type_synonym byte = "8 word"

text \<open>\<^verbatim>\<open>util.Hash\<close> is a 32-byte array: a 256-bit identifier.\<close>

type_synonym Hash = "256 word"

record OutPoint =
  Hash :: Hash
  Index :: "32 word"

record TxOut =
  txValue :: int
  scriptPubKey :: "byte list"

record TxIn =
  PreviousOutPoint :: OutPoint
  scriptSig :: "byte list"
  Sequence :: "32 word"

record Tx =
  Version :: int
  LockTime :: "32 word"
  ins :: "TxIn list"
  outs :: "TxOut list"

record TxEntry =
  Tx :: Tx

record BlockIndex =
  BlockHash :: Hash
  Height :: int
  HeaderTime :: "32 word"

record Block =
  Txs :: "Tx list"

text \<open>
  Modelled from the spec: the type \<^verbatim>\<open>utxo.Coin\<close> is not among the sources. Section 3
  gives its fields, and says that a Coin's existence in the coin view is the statement
  that the output is unspent: there is no separate spent flag.
\<close>

record Coin =
  coinValue :: int
  outputScript :: "byte list"
  blockHeight :: nat
  isCoinbase :: bool

datatype RPCErrorCode =
    ErrRPCInvalidParameter
  | ErrInvalidParameter
  | ErrRPCInvalidAddressOrKey

datatype error =
    NilDereference
  | RPCError RPCErrorCode string
  | DecodeHexError string

section \<open>The coin view\<close>

text \<open>
  The coin view maps an OutPoint to a Coin; \<^verbatim>\<open>GetCoin\<close> returns a pointer, \<^verbatim>\<open>nil\<close> for
  an OutPoint the view does not hold.
\<close>

type_synonym CacheView = "OutPoint \<Rightarrow> Coin option"

definition GetCoin :: "CacheView \<Rightarrow> OutPoint \<Rightarrow> Coin option" where
  "GetCoin coinsCache out = coinsCache out"

text \<open>
  Modelled from the spec: the method \<^verbatim>\<open>Coin.IsSpent\<close> is not among the sources. By
  section 3 spending removes the entry, so the coin that is absent is the spent one;
  by section 7 an exhausted slow path is a normal not-found outcome, so the call on the
  absent coin returns and does not fault.
\<close>

fun IsSpent :: "Coin option \<Rightarrow> bool" where
  "IsSpent None = True"
| "IsSpent (Some c) = False"

text \<open>
  Modelled from the spec: the method \<^verbatim>\<open>Coin.GetHeight\<close> is not among the sources; it
  reads the recorded block height of section 3, which a \<^verbatim>\<open>nil\<close> coin does not have.
\<close>

fun GetHeight :: "Coin option \<Rightarrow> error + nat" where
  "GetHeight None = Inl NilDereference"
| "GetHeight (Some c) = Inr (blockHeight c)"

text \<open>The literal bound of the loop in \<^verbatim>\<open>AccessByTxid\<close>.\<close>

definition probeCeiling :: nat where
  "probeCeiling = 11000"

definition NewOutPoint :: "Hash \<Rightarrow> 32 word \<Rightarrow> OutPoint" where
  "NewOutPoint hash index = \<lparr>Hash = hash, Index = index\<rparr>"

lemma probeCeiling_small: "probeCeiling < 2 ^ 32"
  by (simp add: probeCeiling_def)

lemma unat_succ_below:
  fixes w :: "32 word"
  assumes "unat w < probeCeiling"
  shows "unat (w + 1) = Suc (unat w)"
proof -
  have "unat w + unat (1 :: 32 word) < 2 ^ LENGTH(32)"
    using assms probeCeiling_small by simp
  then have "unat (w + 1) = unat w + unat (1 :: 32 word)"
    by (rule unat_add_lem [THEN iffD1])
  then show ?thesis by simp
qed

text \<open>
  The loop of \<^verbatim>\<open>AccessByTxid\<close>. The third argument records the OutPoints handed to
  \<^verbatim>\<open>GetCoin\<close>, in the order of the calls; the result is the returned pointer and
  that record.
\<close>

function AccessByTxid_loop ::
  "CacheView \<Rightarrow> OutPoint \<Rightarrow> OutPoint list \<Rightarrow> Coin option \<times> OutPoint list" where
  "AccessByTxid_loop coinsCache out probed =
     (if unat (Index out) < probeCeiling then
        (let alternate = GetCoin coinsCache out in
         if \<not> IsSpent alternate then (alternate, probed @ [out])
         else AccessByTxid_loop coinsCache (out\<lparr>Index := Index out + 1\<rparr>) (probed @ [out]))
      else (None, probed))"
  by pat_completeness auto
termination
proof (relation "measure (\<lambda>(c, out, p). probeCeiling - unat (Index out))")
  show "wf (measure (\<lambda>(c, out, p). probeCeiling - unat (Index out)))" by simp
next
  fix coinsCache :: CacheView and out :: OutPoint and probed :: "OutPoint list" and x
  assume a: "unat (Index out) < probeCeiling"
  have "unat (Index out + 1) = Suc (unat (Index out))" using a by (rule unat_succ_below)
  with a show "((coinsCache, out\<lparr>Index := Index out + 1\<rparr>, probed @ [out]), coinsCache, out, probed)
       \<in> measure (\<lambda>(c, out, p). probeCeiling - unat (Index out))"
    by simp
qed

declare AccessByTxid_loop.simps [simp del]

definition AccessByTxid_run :: "CacheView \<Rightarrow> Hash \<Rightarrow> Coin option \<times> OutPoint list" where
  "AccessByTxid_run coinsCache hash =
     AccessByTxid_loop coinsCache \<lparr>Hash = hash, Index = 0\<rparr> []"

definition AccessByTxid :: "CacheView \<Rightarrow> Hash \<Rightarrow> Coin option" where
  "AccessByTxid coinsCache hash = fst (AccessByTxid_run coinsCache hash)"

subsection \<open>What the probe returns\<close>

lemma unat_of_nat_below:
  "i < probeCeiling \<Longrightarrow> unat (of_nat i :: 32 word) = i"
  using probeCeiling_small by (intro of_nat_inverse [OF refl]) simp

lemma loop_first_unspent:
  "i \<le> k \<Longrightarrow> k < probeCeiling \<Longrightarrow>
   (\<forall>j. i \<le> j \<and> j < k \<longrightarrow> IsSpent (GetCoin view \<lparr>Hash = h, Index = of_nat j\<rparr>)) \<Longrightarrow>
   \<not> IsSpent (GetCoin view \<lparr>Hash = h, Index = of_nat k\<rparr>) \<Longrightarrow>
   AccessByTxid_loop view \<lparr>Hash = h, Index = of_nat i\<rparr> probed =
     (GetCoin view \<lparr>Hash = h, Index = of_nat k\<rparr>,
      probed @ map (\<lambda>j. \<lparr>Hash = h, Index = of_nat j\<rparr>) [i..<Suc k])"
proof (induction "k - i" arbitrary: i probed)
  case 0
  then have ik: "i = k" by simp
  have u: "unat (of_nat k :: 32 word) < probeCeiling"
    using "0.prems"(2) by (simp add: unat_of_nat_below)
  show ?case
    by (subst AccessByTxid_loop.simps) (use "0.prems"(4) u in \<open>simp add: ik\<close>)
next
  case (Suc d)
  then have lt: "i < k" by simp
  then have ic: "i < probeCeiling" using Suc.prems(2) by simp
  have u: "unat (of_nat i :: 32 word) < probeCeiling"
    using ic by (simp add: unat_of_nat_below)
  have sp: "IsSpent (GetCoin view \<lparr>Hash = h, Index = of_nat i\<rparr>)"
    using Suc.prems(3) lt by simp
  have d: "d = k - Suc i" using Suc.hyps(2) by simp
  have step: "AccessByTxid_loop view \<lparr>Hash = h, Index = of_nat (Suc i)\<rparr> (probed @ [\<lparr>Hash = h, Index = of_nat i\<rparr>]) =
     (GetCoin view \<lparr>Hash = h, Index = of_nat k\<rparr>,
      (probed @ [\<lparr>Hash = h, Index = of_nat i\<rparr>]) @ map (\<lambda>j. \<lparr>Hash = h, Index = of_nat j\<rparr>) [Suc i..<Suc k])"
    using Suc.hyps(1) [OF d] lt Suc.prems(2,3,4) by simp
  have up: "[i..<Suc k] = i # [Suc i..<Suc k]"
    using lt by (simp add: upt_conv_Cons)
  show ?case
    by (subst AccessByTxid_loop.simps) (use sp u step in \<open>simp add: up add.commute del: upt_Suc\<close>)
qed

lemma loop_all_spent:
  "i \<le> probeCeiling \<Longrightarrow>
   (\<forall>j. i \<le> j \<and> j < probeCeiling \<longrightarrow> IsSpent (GetCoin view \<lparr>Hash = h, Index = of_nat j\<rparr>)) \<Longrightarrow>
   AccessByTxid_loop view \<lparr>Hash = h, Index = of_nat i\<rparr> probed =
     (None, probed @ map (\<lambda>j. \<lparr>Hash = h, Index = of_nat j\<rparr>) [i..<probeCeiling])"
proof (induction "probeCeiling - i" arbitrary: i probed)
  case 0
  then have ik: "i = probeCeiling" by simp
  have "unat (of_nat probeCeiling :: 32 word) = probeCeiling"
    using probeCeiling_small by (intro of_nat_inverse [OF refl]) simp
  then show ?case
    by (subst AccessByTxid_loop.simps) (simp add: ik)
next
  case (Suc d)
  then have ic: "i < probeCeiling" by simp
  have u: "unat (of_nat i :: 32 word) < probeCeiling"
    using ic by (simp add: unat_of_nat_below)
  have sp: "IsSpent (GetCoin view \<lparr>Hash = h, Index = of_nat i\<rparr>)"
    using Suc.prems(2) ic by simp
  have d: "d = probeCeiling - Suc i" using Suc.hyps(2) by simp
  have step: "AccessByTxid_loop view \<lparr>Hash = h, Index = of_nat (Suc i)\<rparr> (probed @ [\<lparr>Hash = h, Index = of_nat i\<rparr>]) =
     (None, (probed @ [\<lparr>Hash = h, Index = of_nat i\<rparr>]) @ map (\<lambda>j. \<lparr>Hash = h, Index = of_nat j\<rparr>) [Suc i..<probeCeiling])"
    using Suc.hyps(1) [OF d] ic Suc.prems(2) by simp
  have up: "[i..<probeCeiling] = i # [Suc i..<probeCeiling]"
    using ic by (simp add: upt_conv_Cons)
  show ?case
    by (subst AccessByTxid_loop.simps) (use sp u step in \<open>simp add: up add.commute\<close>)
qed

text \<open>
  C2. \<^verbatim>\<open>AccessByTxid\<close> probes the OutPoints \<open>(hash, 0), (hash, 1), \<dots>\<close> in
  increasing index order, below the fixed ceiling only. When \<open>k\<close> is the lowest index
  below the ceiling whose coin is unspent, the probes are exactly the indices \<open>0 .. k\<close>
  and the result is the coin at \<open>k\<close>. When no index below the ceiling is unspent, all
  indices below the ceiling are probed and the result is not-found (\<^verbatim>\<open>nil\<close>), whatever
  the view holds at the ceiling or above.
\<close>

theorem AccessByTxid_lowest_unspent:
  "(k < probeCeiling \<and>
    \<not> IsSpent (GetCoin view \<lparr>Hash = h, Index = of_nat k\<rparr>) \<and>
    (\<forall>j<k. IsSpent (GetCoin view \<lparr>Hash = h, Index = of_nat j\<rparr>)) \<longrightarrow>
      AccessByTxid_run view h =
        (GetCoin view \<lparr>Hash = h, Index = of_nat k\<rparr>,
         map (\<lambda>j. \<lparr>Hash = h, Index = of_nat j\<rparr>) [0..<Suc k])) \<and>
   ((\<forall>j<probeCeiling. IsSpent (GetCoin view \<lparr>Hash = h, Index = of_nat j\<rparr>)) \<longrightarrow>
      AccessByTxid_run view h =
        (None, map (\<lambda>j. \<lparr>Hash = h, Index = of_nat j\<rparr>) [0..<probeCeiling]))"
proof (intro conjI impI)
  assume a: "k < probeCeiling \<and>
    \<not> IsSpent (GetCoin view \<lparr>Hash = h, Index = of_nat k\<rparr>) \<and>
    (\<forall>j<k. IsSpent (GetCoin view \<lparr>Hash = h, Index = of_nat j\<rparr>))"
  then have "AccessByTxid_loop view \<lparr>Hash = h, Index = of_nat 0\<rparr> [] =
     (GetCoin view \<lparr>Hash = h, Index = of_nat k\<rparr>,
      [] @ map (\<lambda>j. \<lparr>Hash = h, Index = of_nat j\<rparr>) [0..<Suc k])"
    by (intro loop_first_unspent) simp_all
  then show "AccessByTxid_run view h =
        (GetCoin view \<lparr>Hash = h, Index = of_nat k\<rparr>,
         map (\<lambda>j. \<lparr>Hash = h, Index = of_nat j\<rparr>) [0..<Suc k])"
    by (simp add: AccessByTxid_run_def del: upt_Suc)
next
  assume a: "\<forall>j<probeCeiling. IsSpent (GetCoin view \<lparr>Hash = h, Index = of_nat j\<rparr>)"
  then have "AccessByTxid_loop view \<lparr>Hash = h, Index = of_nat 0\<rparr> [] =
     (None, [] @ map (\<lambda>j. \<lparr>Hash = h, Index = of_nat j\<rparr>) [0..<probeCeiling])"
    by (intro loop_all_spent) simp_all
  then show "AccessByTxid_run view h =
        (None, map (\<lambda>j. \<lparr>Hash = h, Index = of_nat j\<rparr>) [0..<probeCeiling])"
    by (simp add: AccessByTxid_run_def)
qed

lemma of_nat_ne_ceiling:
  "j < probeCeiling \<Longrightarrow> (of_nat j :: 32 word) \<noteq> of_nat probeCeiling"
proof
  assume j: "j < probeCeiling" and e: "(of_nat j :: 32 word) = of_nat probeCeiling"
  have "unat (of_nat j :: 32 word) = j" using j by (rule unat_of_nat_below)
  moreover have "unat (of_nat probeCeiling :: 32 word) = probeCeiling"
    using probeCeiling_small by (intro of_nat_inverse [OF refl]) simp
  ultimately show False using e j by simp
qed

text \<open>
  Two runs: a view with unspent outputs 2 and 5 of transaction 7, and a view whose only
  coin of transaction 9 sits at the ceiling itself.
\<close>

theorem AccessByTxid_lowest_unspent_witness:
  "AccessByTxid_run
     ((\<lambda>_. None)
        (\<lparr>Hash = 7, Index = 2\<rparr> \<mapsto> \<lparr>coinValue = 50, outputScript = [], blockHeight = 100, isCoinbase = False\<rparr>,
         \<lparr>Hash = 7, Index = 5\<rparr> \<mapsto> \<lparr>coinValue = 60, outputScript = [], blockHeight = 100, isCoinbase = False\<rparr>)) 7 =
     (Some \<lparr>coinValue = 50, outputScript = [], blockHeight = 100, isCoinbase = False\<rparr>,
      [\<lparr>Hash = 7, Index = 0\<rparr>, \<lparr>Hash = 7, Index = 1\<rparr>, \<lparr>Hash = 7, Index = 2\<rparr>]) \<and>
   AccessByTxid_run
     ((\<lambda>_. None)
        (\<lparr>Hash = 9, Index = of_nat probeCeiling\<rparr> \<mapsto> \<lparr>coinValue = 50, outputScript = [], blockHeight = 100, isCoinbase = False\<rparr>)) 9 =
     (None, map (\<lambda>j. \<lparr>Hash = 9, Index = of_nat j\<rparr>) [0..<probeCeiling]) \<and>
   \<not> IsSpent (GetCoin
     ((\<lambda>_. None)
        (\<lparr>Hash = 9, Index = of_nat probeCeiling\<rparr> \<mapsto> \<lparr>coinValue = 50, outputScript = [], blockHeight = 100, isCoinbase = False\<rparr>))
     \<lparr>Hash = 9, Index = of_nat probeCeiling\<rparr>)"
proof (intro conjI)
  have c: "(2::nat) < probeCeiling" by (simp add: probeCeiling_def)
  have two: "\<And>j::nat. j < 2 \<longleftrightarrow> j = 0 \<or> j = 1" by auto
  show "AccessByTxid_run
     ((\<lambda>_. None)
        (\<lparr>Hash = 7, Index = 2\<rparr> \<mapsto> \<lparr>coinValue = 50, outputScript = [], blockHeight = 100, isCoinbase = False\<rparr>,
         \<lparr>Hash = 7, Index = 5\<rparr> \<mapsto> \<lparr>coinValue = 60, outputScript = [], blockHeight = 100, isCoinbase = False\<rparr>)) 7 =
     (Some \<lparr>coinValue = 50, outputScript = [], blockHeight = 100, isCoinbase = False\<rparr>,
      [\<lparr>Hash = 7, Index = 0\<rparr>, \<lparr>Hash = 7, Index = 1\<rparr>, \<lparr>Hash = 7, Index = 2\<rparr>])"
    using c AccessByTxid_lowest_unspent [THEN conjunct1, of 2 "((\<lambda>_. None)
        (\<lparr>Hash = 7, Index = 2\<rparr> \<mapsto> \<lparr>coinValue = 50, outputScript = [], blockHeight = 100, isCoinbase = False\<rparr>,
         \<lparr>Hash = 7, Index = 5\<rparr> \<mapsto> \<lparr>coinValue = 60, outputScript = [], blockHeight = 100, isCoinbase = False\<rparr>))" 7]
    by (simp add: GetCoin_def two upt_rec)
next
  show "AccessByTxid_run
     ((\<lambda>_. None)
        (\<lparr>Hash = 9, Index = of_nat probeCeiling\<rparr> \<mapsto> \<lparr>coinValue = 50, outputScript = [], blockHeight = 100, isCoinbase = False\<rparr>)) 9 =
     (None, map (\<lambda>j. \<lparr>Hash = 9, Index = of_nat j\<rparr>) [0..<probeCeiling])"
    using AccessByTxid_lowest_unspent [THEN conjunct2, of "((\<lambda>_. None)
        (\<lparr>Hash = 9, Index = of_nat probeCeiling\<rparr> \<mapsto> \<lparr>coinValue = 50, outputScript = [], blockHeight = 100, isCoinbase = False\<rparr>))" 9]
    by (simp add: GetCoin_def of_nat_ne_ceiling)
next
  show "\<not> IsSpent (GetCoin
     ((\<lambda>_. None)
        (\<lparr>Hash = 9, Index = of_nat probeCeiling\<rparr> \<mapsto> \<lparr>coinValue = 50, outputScript = [], blockHeight = 100, isCoinbase = False\<rparr>))
     \<lparr>Hash = 9, Index = of_nat probeCeiling\<rparr>)"
    by (simp add: GetCoin_def)
qed

section \<open>The transaction locator\<close>

text \<open>
  The global state the locator reads: the pending pool (\<^verbatim>\<open>mempool.Gpool\<close>), the flag
  \<^verbatim>\<open>chain.GTxIndex\<close> and the index behind it, the coin cache, the active chain's block
  index (by height, by hash, membership, height of the tip) and the block files. The
  bodies of \<^verbatim>\<open>ReadTxIndex\<close>, \<^verbatim>\<open>GetIndex\<close>, \<^verbatim>\<open>FindBlockIndex\<close>, \<^verbatim>\<open>Contains\<close>,
  \<^verbatim>\<open>Height\<close>, \<^verbatim>\<open>ReadBlockFromDisk\<close> and \<^verbatim>\<open>TxHash\<close> are not among the sources: they
  are fields of the state. \<^verbatim>\<open>ReadBlockFromDisk\<close> receives the pointer \<^verbatim>\<open>bk\<close> by value and answers
  whether the read succeeded.
\<close>

record Node =
  Gpool :: "Hash \<Rightarrow> TxEntry option"
  GTxIndex :: bool
  ReadTxIndex :: "Hash \<Rightarrow> (Hash \<times> nat) option"
  UtxoCache :: CacheView
  GetIndex :: "int \<Rightarrow> BlockIndex option"
  FindBlockIndex :: "Hash \<Rightarrow> BlockIndex option"
  Contains :: "BlockIndex \<Rightarrow> bool"
  ChainHeight :: int
  ReadBlockFromDisk :: "Block option \<Rightarrow> BlockIndex \<Rightarrow> bool"
  TxHash :: "Tx \<Rightarrow> Hash"

definition FindTx :: "Node \<Rightarrow> Hash \<Rightarrow> TxEntry option" where
  "FindTx node hash = Gpool node hash"

fun scanTxs :: "Node \<Rightarrow> Hash \<Rightarrow> Tx list \<Rightarrow> Tx option" where
  "scanTxs node hash [] = None"
| "scanTxs node hash (tx # txs) =
     (if hash = TxHash node tx then Some tx else scanTxs node hash txs)"

text \<open>
  \<^verbatim>\<open>GetTransaction\<close>. The result of \<^verbatim>\<open>ReadTxIndex\<close> is discarded by the source. The
  variable \<^verbatim>\<open>bk\<close> is declared \<^verbatim>\<open>var bk *block.Block\<close>, so it is \<^verbatim>\<open>nil\<close>; the call passes
  the pointer by value, so it still is \<^verbatim>\<open>nil\<close> where \<^verbatim>\<open>bk.Txs\<close> is read.
\<close>

definition GetTransaction ::
  "Node \<Rightarrow> Hash \<Rightarrow> bool \<Rightarrow> error + (Tx option \<times> Hash option \<times> bool)" where
  "GetTransaction node hash allowSlow =
     (case FindTx node hash of
        Some entry \<Rightarrow> Inr (Some (Tx entry), None, True)
      | None \<Rightarrow>
          (let _ = (if GTxIndex node then ReadTxIndex node hash else None) in
           case (if allowSlow then
                   (let coin = AccessByTxid (UtxoCache node) hash in
                    if \<not> IsSpent coin then
                      (case GetHeight coin of
                         Inl e \<Rightarrow> Inl e
                       | Inr height \<Rightarrow> Inr (GetIndex node (int height)))
                    else Inr None)
                 else Inr None) of
             Inl e \<Rightarrow> Inl e
           | Inr None \<Rightarrow> Inr (None, None, False)
           | Inr (Some indexSlow) \<Rightarrow>
               (let bk = None in
                if ReadBlockFromDisk node bk indexSlow then
                  (case bk of
                     None \<Rightarrow> Inl NilDereference
                   | Some b \<Rightarrow>
                       (case scanTxs node hash (Txs b) of
                          Some tx \<Rightarrow> Inr (Some tx, Some (BlockHash indexSlow), True)
                        | None \<Rightarrow> Inr (None, None, False)))
                else Inr (None, None, False))))"

text \<open>Sample states for the runs below.\<close>

definition tx0 :: Tx where
  "tx0 = \<lparr>Version = 1, LockTime = 0, ins = [], outs = []\<rparr>"

definition coin100 :: Coin where
  "coin100 = \<lparr>coinValue = 50, outputScript = [], blockHeight = 100, isCoinbase = False\<rparr>"

definition emptyNode :: Node where
  "emptyNode =
     \<lparr>Gpool = (\<lambda>_. None), GTxIndex = False, ReadTxIndex = (\<lambda>_. None),
      UtxoCache = (\<lambda>_. None), GetIndex = (\<lambda>_. None),
      FindBlockIndex = (\<lambda>_. None), Contains = (\<lambda>_. False), ChainHeight = 100,
      ReadBlockFromDisk = (\<lambda>_ _. False), TxHash = (\<lambda>_. 0)\<rparr>"

definition staleHintNode :: Node where
  "staleHintNode =
     emptyNode
       \<lparr>UtxoCache := (\<lambda>_. None)(\<lparr>Hash = 5, Index = 2\<rparr> \<mapsto> coin100),
        GetIndex := (\<lambda>_. None)(100 \<mapsto> \<lparr>BlockHash = 77, Height = 100, HeaderTime = 0\<rparr>),
        ReadBlockFromDisk := (\<lambda>_ _. True)\<rparr>"

text \<open>
  C1. A hash that the pending pool holds is answered from the pool: the pooled
  transaction, no confirming block hash (\<^verbatim>\<open>nil\<close>) and found, for either value of
  \<^verbatim>\<open>allowSlow\<close>, whatever the flag of the persistent index and the coin view are.
\<close>

theorem GetTransaction_pool_precedence:
  "Gpool node hash = Some entry \<Longrightarrow>
   GetTransaction (node\<lparr>GTxIndex := txindex, UtxoCache := view\<rparr>) hash allowSlow =
     Inr (Some (Tx entry), None, True)"
  by (simp add: GetTransaction_def FindTx_def)

theorem GetTransaction_pool_precedence_witness:
  "GetTransaction (emptyNode\<lparr>Gpool := (\<lambda>_. None)(5 \<mapsto> \<lparr>Tx = tx0\<rparr>), GTxIndex := True,
      UtxoCache := (\<lambda>_. None)(\<lparr>Hash = 5, Index = 2\<rparr> \<mapsto> coin100)\<rparr>) 5 False =
     Inr (Some tx0, None, True) \<and>
   GetTransaction (emptyNode\<lparr>Gpool := (\<lambda>_. None)(5 \<mapsto> \<lparr>Tx = tx0\<rparr>), GTxIndex := False,
      UtxoCache := (\<lambda>_. None)\<rparr>) 5 True =
     Inr (Some tx0, None, True)"
  using GetTransaction_pool_precedence
      [where node = "emptyNode\<lparr>Gpool := (\<lambda>_. None)(5 \<mapsto> \<lparr>Tx = tx0\<rparr>)\<rparr>" and hash = 5
          and entry = "\<lparr>Tx = tx0\<rparr>" and txindex = True
          and view = "(\<lambda>_. None)(\<lparr>Hash = 5, Index = 2\<rparr> \<mapsto> coin100)" and allowSlow = False]
    GetTransaction_pool_precedence
      [where node = "emptyNode\<lparr>Gpool := (\<lambda>_. None)(5 \<mapsto> \<lparr>Tx = tx0\<rparr>)\<rparr>" and hash = 5
          and entry = "\<lparr>Tx = tx0\<rparr>" and txindex = False
          and view = "(\<lambda>_. None)" and allowSlow = True]
  by (simp add: emptyNode_def)

lemma AccessByTxid_none:
  "(\<forall>j<probeCeiling. IsSpent (GetCoin view \<lparr>Hash = h, Index = of_nat j\<rparr>)) \<Longrightarrow>
   AccessByTxid view h = None"
  using loop_all_spent [of 0 view h "[]"]
  by (simp add: AccessByTxid_def AccessByTxid_run_def)

lemma AccessByTxid_first:
  "\<not> IsSpent (GetCoin view \<lparr>Hash = h, Index = 0\<rparr>) \<Longrightarrow>
   AccessByTxid view h = GetCoin view \<lparr>Hash = h, Index = 0\<rparr>"
  using loop_first_unspent [of 0 0 view h "[]"]
  by (simp add: AccessByTxid_def AccessByTxid_run_def probeCeiling_def)

text \<open>
  C9. For a hash that the pending pool does not hold and that has no unspent output at
  any index below the ceiling, \<^verbatim>\<open>GetTransaction(hash, true)\<close> returns
  \<^verbatim>\<open>(nil, nil, false)\<close> and does not fault: \<^verbatim>\<open>AccessByTxid\<close> returns \<^verbatim>\<open>nil\<close>, and
  \<^verbatim>\<open>IsSpent\<close> on that pointer answers true.
\<close>

theorem GetTransaction_not_found_without_fault:
  "Gpool node hash = None \<Longrightarrow>
   (\<forall>j<probeCeiling. IsSpent (GetCoin (UtxoCache node) \<lparr>Hash = hash, Index = of_nat j\<rparr>)) \<Longrightarrow>
   GetTransaction node hash True = Inr (None, None, False)"
  by (simp add: GetTransaction_def FindTx_def AccessByTxid_none)

theorem GetTransaction_not_found_without_fault_witness:
  "GetTransaction (emptyNode\<lparr>GetIndex := (\<lambda>_. None)(100 \<mapsto> \<lparr>BlockHash = 77, Height = 100, HeaderTime = 0\<rparr>),
      UtxoCache := (\<lambda>_. None)(\<lparr>Hash = 5, Index = of_nat probeCeiling\<rparr> \<mapsto> coin100)\<rparr>) 5 True =
     Inr (None, None, False)"
  using GetTransaction_not_found_without_fault
      [of "emptyNode\<lparr>GetIndex := (\<lambda>_. None)(100 \<mapsto> \<lparr>BlockHash = 77, Height = 100, HeaderTime = 0\<rparr>),
      UtxoCache := (\<lambda>_. None)(\<lparr>Hash = 5, Index = of_nat probeCeiling\<rparr> \<mapsto> coin100)\<rparr>" 5]
  by (simp add: emptyNode_def GetCoin_def of_nat_ne_ceiling)

text \<open>
  Off the pool, a slow path whose block read succeeds ends in the read of \<^verbatim>\<open>bk.Txs\<close>
  through the \<^verbatim>\<open>nil\<close> pointer; so the locator never returns a transaction of a block.
\<close>

lemma GetTransaction_slow_read_faults:
  "Gpool node hash = None \<Longrightarrow>
   AccessByTxid (UtxoCache node) hash = Some coin \<Longrightarrow>
   GetIndex node (int (blockHeight coin)) = Some indexSlow \<Longrightarrow>
   ReadBlockFromDisk node None indexSlow \<Longrightarrow>
   GetTransaction node hash True = Inl NilDereference"
  by (simp add: GetTransaction_def FindTx_def)

lemma GetTransaction_slow_never_finds:
  "Gpool node hash = None \<Longrightarrow> GetTransaction node hash allowSlow \<noteq> Inr (Some tx, blk, True)"
  by (auto simp: GetTransaction_def FindTx_def Let_def split: sum.splits option.splits if_splits)

lemma AccessByTxid_staleHintNode:
  "AccessByTxid (UtxoCache staleHintNode) 5 = Some coin100"
proof -
  have c: "(2::nat) < probeCeiling" by (simp add: probeCeiling_def)
  have two: "\<And>j::nat. j < 2 \<longleftrightarrow> j = 0 \<or> j = 1" by auto
  show ?thesis
    using c loop_first_unspent [of 0 2 "UtxoCache staleHintNode" 5 "[]"]
    by (simp add: AccessByTxid_def AccessByTxid_run_def staleHintNode_def emptyNode_def
        GetCoin_def two)
qed

text \<open>
  C3. The run of the stale height hint: the pool does not hold hash 5, the coin view
  holds an unspent coin of output 2 at height 100, the chain has a block index at
  height 100 and the block read succeeds. The source means to scan the block for the
  exact hash and to fall through to not-found; the run ends in the \<^verbatim>\<open>nil\<close> dereference
  of \<^verbatim>\<open>bk.Txs\<close> instead.
\<close>

theorem GetTransaction_stale_height_hint:
  "GetTransaction staleHintNode 5 True = Inl NilDereference"
proof -
  have a: "Gpool staleHintNode 5 = None"
    by (simp add: staleHintNode_def emptyNode_def)
  have b: "GetIndex staleHintNode (int (blockHeight coin100)) =
      Some \<lparr>BlockHash = 77, Height = 100, HeaderTime = 0\<rparr>"
    by (simp add: staleHintNode_def emptyNode_def coin100_def)
  have c: "ReadBlockFromDisk staleHintNode None \<lparr>BlockHash = 77, Height = 100, HeaderTime = 0\<rparr>"
    by (simp add: staleHintNode_def emptyNode_def)
  show ?thesis
    by (rule GetTransaction_slow_read_faults [OF a AccessByTxid_staleHintNode b c])
qed

section \<open>Raw-transaction admission\<close>

text \<open>
  The wire codec, the hash codec and the test for a coinbase transaction are not among
  the sources; the handlers take them as a record of functions. \<^verbatim>\<open>Unserialize\<close>, \<^verbatim>\<open>Serialize\<close> and \<^verbatim>\<open>GetHashFromStr\<close>
  answer \<^verbatim>\<open>None\<close> where the Go function returns an error.
\<close>

record Codec =
  Unserialize :: "string \<Rightarrow> Tx option"
  Serialize :: "Tx \<Rightarrow> byte list option"
  SerializeSize :: "Tx \<Rightarrow> nat"
  IsCoinBase :: "Tx \<Rightarrow> bool"
  GetHashFromStr :: "string \<Rightarrow> Hash option"
  HashToString :: "Hash \<Rightarrow> string"

record SendRawTransactionCmd =
  HexTx :: string
  AllowHighFees :: "bool option"

text \<open>
  \<^verbatim>\<open>rpcDecodeHexError\<close> is defined elsewhere in the package; its result is kept as a
  value of its argument.
\<close>

definition rpcDecodeHexError :: "string \<Rightarrow> error" where
  "rpcDecodeHexError gotHex = DecodeHexError gotHex"

text \<open>
  Modelled from the spec: the method \<^verbatim>\<open>Tx.GetOutsCount\<close> is not among the sources; by
  section 3 the outputs are an ordered sequence, and this is its length.
\<close>

definition GetOutsCount :: "Tx \<Rightarrow> nat" where
  "GetOutsCount tx = length (outs tx)"

text \<open>
  The loop of \<^verbatim>\<open>handleSendRawTransaction\<close> that computes \<^verbatim>\<open>haveChain\<close>; the index is
  converted with \<^verbatim>\<open>uint32(i)\<close>. As for the probe above, the last argument records the
  OutPoints handed to \<^verbatim>\<open>GetCoin\<close>.
\<close>

function haveChain_loop ::
  "CacheView \<Rightarrow> Hash \<Rightarrow> nat \<Rightarrow> nat \<Rightarrow> bool \<Rightarrow> OutPoint list \<Rightarrow> bool \<times> OutPoint list" where
  "haveChain_loop view hash outsCount i haveChain probed =
     (if \<not> haveChain \<and> i < outsCount then
        (let existingCoin = GetCoin view (NewOutPoint hash (of_nat i)) in
         haveChain_loop view hash outsCount (Suc i) (\<not> IsSpent existingCoin)
           (probed @ [NewOutPoint hash (of_nat i)]))
      else (haveChain, probed))"
  by pat_completeness auto
termination
  by (relation "measure (\<lambda>(view, hash, outsCount, i, haveChain, probed). outsCount - i)") auto

declare haveChain_loop.simps [simp del]

definition haveChain_scan :: "Node \<Rightarrow> Tx \<Rightarrow> bool \<times> OutPoint list" where
  "haveChain_scan node transaction =
     haveChain_loop (UtxoCache node) (TxHash node transaction) (GetOutsCount transaction) 0 False []"

text \<open>
  \<^verbatim>\<open>handleSendRawTransaction\<close>. The result is the returned pair of value and error,
  and the transactions handed to \<^verbatim>\<open>ProcessForRpc\<close>.
\<close>

definition handleSendRawTransaction ::
  "Node \<Rightarrow> Codec \<Rightarrow> SendRawTransactionCmd \<Rightarrow> (error + string) \<times> Tx list" where
  "handleSendRawTransaction node codec c =
     (case Unserialize codec (HexTx c) of
        None \<Rightarrow> (Inl (rpcDecodeHexError (HexTx c)), [])
      | Some transaction \<Rightarrow>
          (let hash = TxHash node transaction;
               maxTxFee = (10000 :: int);
               maxRawTxFee = (if AllowHighFees c = Some True then 0 else maxTxFee);
               haveChain = fst (haveChain_scan node transaction);
               entry = FindTx node hash;
               processed = (if entry \<noteq> None then [transaction] else [])
           in (Inr (HashToString codec hash), processed)))"

text \<open>Sample values for the runs below.\<close>

definition tx3 :: Tx where
  "tx3 = \<lparr>Version = 1, LockTime = 0, ins = [],
          outs = [\<lparr>txValue = 10, scriptPubKey = []\<rparr>, \<lparr>txValue = 20, scriptPubKey = []\<rparr>,
                  \<lparr>txValue = 30, scriptPubKey = []\<rparr>]\<rparr>"

definition confirmedNode :: Node where
  "confirmedNode = emptyNode\<lparr>UtxoCache := (\<lambda>_. None)(\<lparr>Hash = 0, Index = 1\<rparr> \<mapsto> coin100)\<rparr>"

definition sampleCodec :: Codec where
  "sampleCodec =
     \<lparr>Unserialize = (\<lambda>s. if s = ''tx3'' then Some tx3 else None),
      Serialize = (\<lambda>_. Some []),
      SerializeSize = (\<lambda>_. 0),
      IsCoinBase = (\<lambda>_. False),
      GetHashFromStr = (\<lambda>_. None),
      HashToString = (\<lambda>_. ''00'')\<rparr>"

lemma haveChain_loop_done:
  "haveChain_loop view hash n i True probed = (True, probed)"
  by (subst haveChain_loop.simps) simp

lemma haveChain_loop_first:
  "i \<le> k \<Longrightarrow> k < n \<Longrightarrow>
   (\<forall>j. i \<le> j \<and> j < k \<longrightarrow> IsSpent (GetCoin view (NewOutPoint hash (of_nat j)))) \<Longrightarrow>
   \<not> IsSpent (GetCoin view (NewOutPoint hash (of_nat k))) \<Longrightarrow>
   haveChain_loop view hash n i False probed =
     (True, probed @ map (\<lambda>j. NewOutPoint hash (of_nat j)) [i..<Suc k])"
proof (induction "k - i" arbitrary: i probed)
  case 0
  then have ik: "i = k" by simp
  show ?case
    by (subst haveChain_loop.simps) (use "0.prems"(2,4) in \<open>simp add: ik haveChain_loop_done\<close>)
next
  case (Suc d)
  then have lt: "i < k" by simp
  have sp: "IsSpent (GetCoin view (NewOutPoint hash (of_nat i)))"
    using Suc.prems(3) lt by simp
  have d: "d = k - Suc i" using Suc.hyps(2) by simp
  have step: "haveChain_loop view hash n (Suc i) False (probed @ [NewOutPoint hash (of_nat i)]) =
     (True, (probed @ [NewOutPoint hash (of_nat i)]) @ map (\<lambda>j. NewOutPoint hash (of_nat j)) [Suc i..<Suc k])"
    using Suc.hyps(1) [OF d] lt Suc.prems(2,3,4) by simp
  have up: "[i..<Suc k] = i # [Suc i..<Suc k]"
    using lt by (simp add: upt_conv_Cons)
  have lt2: "i < n" using lt Suc.prems(2) by simp
  show ?case
    by (subst haveChain_loop.simps) (use sp lt2 step in \<open>simp add: up del: upt_Suc\<close>)
qed

lemma haveChain_loop_none:
  "i \<le> n \<Longrightarrow>
   (\<forall>j. i \<le> j \<and> j < n \<longrightarrow> IsSpent (GetCoin view (NewOutPoint hash (of_nat j)))) \<Longrightarrow>
   haveChain_loop view hash n i False probed =
     (False, probed @ map (\<lambda>j. NewOutPoint hash (of_nat j)) [i..<n])"
proof (induction "n - i" arbitrary: i probed)
  case 0
  then show ?case
    by (subst haveChain_loop.simps) simp
next
  case (Suc d)
  then have lt: "i < n" by simp
  have sp: "IsSpent (GetCoin view (NewOutPoint hash (of_nat i)))"
    using Suc.prems(2) lt by simp
  have d: "d = n - Suc i" using Suc.hyps(2) by simp
  have step: "haveChain_loop view hash n (Suc i) False (probed @ [NewOutPoint hash (of_nat i)]) =
     (False, (probed @ [NewOutPoint hash (of_nat i)]) @ map (\<lambda>j. NewOutPoint hash (of_nat j)) [Suc i..<n])"
    using Suc.hyps(1) [OF d] lt Suc.prems(2) by simp
  have up: "[i..<n] = i # [Suc i..<n]"
    using lt by (simp add: upt_conv_Cons)
  show ?case
    by (subst haveChain_loop.simps) (use sp lt step in \<open>simp add: up\<close>)
qed

lemma first_unspent_exists:
  assumes "\<exists>i<n. P (i::nat)"
  shows "\<exists>k<n. P k \<and> (\<forall>j<k. \<not> P j)"
proof -
  from assms have "\<exists>i. i < n \<and> P i" by simp
  then have "\<exists>k. (k < n \<and> P k) \<and> (\<forall>m<k. \<not> (m < n \<and> P m))"
    by (rule exists_least_iff [THEN iffD1])
  then obtain k where k: "k < n" "P k" and m: "\<forall>m<k. \<not> (m < n \<and> P m)" by blast
  have "\<forall>j<k. \<not> P j"
  proof (intro allI impI)
    fix j assume "j < k"
    with m k(1) show "\<not> P j" by (metis less_trans)
  qed
  with k show ?thesis by blast
qed

lemma less_three: "(j::nat) < 3 \<longleftrightarrow> j = 0 \<or> j = 1 \<or> j = 2"
  by auto

lemma less_one: "(j::nat) < 1 \<longleftrightarrow> j = 0"
  by auto

text \<open>
  C7. \<^verbatim>\<open>haveChain\<close> is true exactly when some output index \<open>i\<close> below the output count
  of the submitted transaction has an unspent coin in the coin view under the
  transaction's own hash. The scan stops at the first such index: when \<open>k\<close> is the
  lowest one, the OutPoints looked up are those of the indices \<open>0 .. k\<close>; when there
  is none, every index below the output count is looked up.
\<close>

theorem haveChain_iff_some_output_unspent:
  "fst (haveChain_scan node transaction) =
     (\<exists>i<GetOutsCount transaction.
        \<not> IsSpent (GetCoin (UtxoCache node) (NewOutPoint (TxHash node transaction) (of_nat i)))) \<and>
   (k < GetOutsCount transaction \<and>
    \<not> IsSpent (GetCoin (UtxoCache node) (NewOutPoint (TxHash node transaction) (of_nat k))) \<and>
    (\<forall>j<k. IsSpent (GetCoin (UtxoCache node) (NewOutPoint (TxHash node transaction) (of_nat j)))) \<longrightarrow>
      snd (haveChain_scan node transaction) =
        map (\<lambda>j. NewOutPoint (TxHash node transaction) (of_nat j)) [0..<Suc k]) \<and>
   ((\<forall>j<GetOutsCount transaction.
       IsSpent (GetCoin (UtxoCache node) (NewOutPoint (TxHash node transaction) (of_nat j)))) \<longrightarrow>
      snd (haveChain_scan node transaction) =
        map (\<lambda>j. NewOutPoint (TxHash node transaction) (of_nat j)) [0..<GetOutsCount transaction])"
proof (intro conjI impI)
  let ?n = "GetOutsCount transaction"
  let ?P = "\<lambda>i. \<not> IsSpent (GetCoin (UtxoCache node) (NewOutPoint (TxHash node transaction) (of_nat i)))"
  show "fst (haveChain_scan node transaction) = (\<exists>i<?n. ?P i)"
  proof (cases "\<exists>i<?n. ?P i")
    case True
    then obtain k where k: "k < ?n" "?P k" "\<forall>j<k. \<not> ?P j"
      using first_unspent_exists [of ?n ?P] by blast
    have "haveChain_loop (UtxoCache node) (TxHash node transaction) ?n 0 False [] =
        (True, [] @ map (\<lambda>j. NewOutPoint (TxHash node transaction) (of_nat j)) [0..<Suc k])"
      using k by (intro haveChain_loop_first) simp_all
    then show ?thesis using True by (simp add: haveChain_scan_def)
  next
    case False
    have "haveChain_loop (UtxoCache node) (TxHash node transaction) ?n 0 False [] =
        (False, [] @ map (\<lambda>j. NewOutPoint (TxHash node transaction) (of_nat j)) [0..<?n])"
      using False by (intro haveChain_loop_none) auto
    then show ?thesis using False by (simp add: haveChain_scan_def)
  qed
next
  assume a: "k < GetOutsCount transaction \<and>
    \<not> IsSpent (GetCoin (UtxoCache node) (NewOutPoint (TxHash node transaction) (of_nat k))) \<and>
    (\<forall>j<k. IsSpent (GetCoin (UtxoCache node) (NewOutPoint (TxHash node transaction) (of_nat j))))"
  have "haveChain_loop (UtxoCache node) (TxHash node transaction) (GetOutsCount transaction) 0 False [] =
        (True, [] @ map (\<lambda>j. NewOutPoint (TxHash node transaction) (of_nat j)) [0..<Suc k])"
    using a by (intro haveChain_loop_first) simp_all
  then show "snd (haveChain_scan node transaction) =
        map (\<lambda>j. NewOutPoint (TxHash node transaction) (of_nat j)) [0..<Suc k]"
    by (simp add: haveChain_scan_def del: upt_Suc)
next
  assume a: "\<forall>j<GetOutsCount transaction.
       IsSpent (GetCoin (UtxoCache node) (NewOutPoint (TxHash node transaction) (of_nat j)))"
  have "haveChain_loop (UtxoCache node) (TxHash node transaction) (GetOutsCount transaction) 0 False [] =
        (False, [] @ map (\<lambda>j. NewOutPoint (TxHash node transaction) (of_nat j)) [0..<GetOutsCount transaction])"
    using a by (intro haveChain_loop_none) simp_all
  then show "snd (haveChain_scan node transaction) =
        map (\<lambda>j. NewOutPoint (TxHash node transaction) (of_nat j)) [0..<GetOutsCount transaction]"
    by (simp add: haveChain_scan_def)
qed

theorem haveChain_iff_some_output_unspent_witness:
  "haveChain_scan confirmedNode tx3 = (True, [NewOutPoint 0 0, NewOutPoint 0 1]) \<and>
   haveChain_scan emptyNode tx3 = (False, [NewOutPoint 0 0, NewOutPoint 0 1, NewOutPoint 0 2])"
proof
  have n: "GetOutsCount tx3 = 3" by (simp add: GetOutsCount_def tx3_def)
  have ex: "\<exists>i<GetOutsCount tx3. \<not> IsSpent (GetCoin (UtxoCache confirmedNode)
      (NewOutPoint (TxHash confirmedNode tx3) (of_nat i)))"
    unfolding n
    by (intro exI [of _ 1]) (simp add: confirmedNode_def emptyNode_def GetCoin_def NewOutPoint_def)
  have "fst (haveChain_scan confirmedNode tx3) = True \<and>
        snd (haveChain_scan confirmedNode tx3) = [NewOutPoint 0 0, NewOutPoint 0 1]"
    using ex haveChain_iff_some_output_unspent [where node = confirmedNode and transaction = tx3 and k = 1]
    by (simp add: n less_one confirmedNode_def emptyNode_def GetCoin_def NewOutPoint_def upt_rec)
  then show "haveChain_scan confirmedNode tx3 = (True, [NewOutPoint 0 0, NewOutPoint 0 1])"
    by (simp add: prod_eq_iff)
next
  have n: "GetOutsCount tx3 = 3" by (simp add: GetOutsCount_def tx3_def)
  have "fst (haveChain_scan emptyNode tx3) = False \<and>
        snd (haveChain_scan emptyNode tx3) = [NewOutPoint 0 0, NewOutPoint 0 1, NewOutPoint 0 2]"
    using haveChain_iff_some_output_unspent [where node = emptyNode and transaction = tx3 and k = 0]
    by (simp add: n emptyNode_def GetCoin_def NewOutPoint_def upt_rec)
  then show "haveChain_scan emptyNode tx3 = (False, [NewOutPoint 0 0, NewOutPoint 0 1, NewOutPoint 0 2])"
    by (simp add: prod_eq_iff)
qed

text \<open>
  C8. What \<^verbatim>\<open>sendrawtransaction\<close> returns does not depend on the coin view, hence not
  on \<^verbatim>\<open>haveChain\<close>: with the pending pool and the input bytes the same, any two coin
  views give the same result (and the same calls of \<^verbatim>\<open>ProcessForRpc\<close>).
\<close>

theorem handleSendRawTransaction_ignores_haveChain:
  "handleSendRawTransaction (node\<lparr>UtxoCache := view1\<rparr>) codec c =
   handleSendRawTransaction (node\<lparr>UtxoCache := view2\<rparr>) codec c"
  by (simp add: handleSendRawTransaction_def FindTx_def Let_def split: option.splits)

lemma haveChain_differs:
  "fst (haveChain_scan confirmedNode tx3) \<and> \<not> fst (haveChain_scan emptyNode tx3)"
proof
  have n: "GetOutsCount tx3 = 3" by (simp add: GetOutsCount_def tx3_def)
  have "haveChain_loop (UtxoCache confirmedNode) (TxHash confirmedNode tx3) 3 0 False [] =
     (True, [] @ map (\<lambda>j. NewOutPoint (TxHash confirmedNode tx3) (of_nat j)) [0..<Suc 1])"
    by (intro haveChain_loop_first)
      (simp_all add: less_one confirmedNode_def emptyNode_def GetCoin_def NewOutPoint_def)
  then show "fst (haveChain_scan confirmedNode tx3)"
    by (simp add: haveChain_scan_def n)
next
  have n: "GetOutsCount tx3 = 3" by (simp add: GetOutsCount_def tx3_def)
  have "haveChain_loop (UtxoCache emptyNode) (TxHash emptyNode tx3) 3 0 False [] =
     (False, [] @ map (\<lambda>j. NewOutPoint (TxHash emptyNode tx3) (of_nat j)) [0..<3])"
    by (intro haveChain_loop_none) (simp_all add: emptyNode_def GetCoin_def)
  then show "\<not> fst (haveChain_scan emptyNode tx3)"
    by (simp add: haveChain_scan_def n)
qed

text \<open>
  Two coin views that make \<^verbatim>\<open>haveChain\<close> differ, and the same answer for both.
\<close>

theorem handleSendRawTransaction_ignores_haveChain_witness:
  "fst (haveChain_scan confirmedNode tx3) \<and> \<not> fst (haveChain_scan emptyNode tx3) \<and>
   handleSendRawTransaction confirmedNode sampleCodec \<lparr>HexTx = ''tx3'', AllowHighFees = None\<rparr> =
   handleSendRawTransaction emptyNode sampleCodec \<lparr>HexTx = ''tx3'', AllowHighFees = None\<rparr> \<and>
   handleSendRawTransaction emptyNode sampleCodec \<lparr>HexTx = ''tx3'', AllowHighFees = None\<rparr> =
     (Inr ''00'', [])"
proof -
  have "handleSendRawTransaction confirmedNode sampleCodec \<lparr>HexTx = ''tx3'', AllowHighFees = None\<rparr> =
   handleSendRawTransaction emptyNode sampleCodec \<lparr>HexTx = ''tx3'', AllowHighFees = None\<rparr>"
    using handleSendRawTransaction_ignores_haveChain
      [where node = emptyNode and codec = sampleCodec
         and ?view1.0 = "(\<lambda>_. None)(\<lparr>Hash = 0, Index = 1\<rparr> \<mapsto> coin100)"
         and ?view2.0 = "\<lambda>_. None"
         and c = "\<lparr>HexTx = ''tx3'', AllowHighFees = None\<rparr>"]
    by (simp add: confirmedNode_def emptyNode_def)
  moreover have "handleSendRawTransaction emptyNode sampleCodec \<lparr>HexTx = ''tx3'', AllowHighFees = None\<rparr> =
     (Inr ''00'', [])"
    by (simp add: handleSendRawTransaction_def sampleCodec_def emptyNode_def FindTx_def Let_def)
  ultimately show ?thesis using haveChain_differs by simp
qed

section \<open>The raw-transaction builder\<close>

text \<open>\<^verbatim>\<open>hex.EncodeToString\<close>: two lower-case hexadecimal digits for each byte.\<close>

definition hexDigit :: "nat \<Rightarrow> char" where
  "hexDigit n = ''0123456789abcdef'' ! n"

definition hexByte :: "byte \<Rightarrow> string" where
  "hexByte b = [hexDigit (unat b div 16), hexDigit (unat b mod 16)]"

definition EncodeToString :: "byte list \<Rightarrow> string" where
  "EncodeToString bs = concat (map hexByte bs)"

text \<open>
  The address codec, the money range's upper bound and the arithmetic of \<^verbatim>\<open>float64\<close>
  are not among the sources. The type of the decimal amounts is the parameter
  \<open>'f\<close>; the product of two amounts, the amount of an integer constant and the
  conversion \<^verbatim>\<open>int64(x)\<close> are fields, so what follows holds for every arithmetic put
  in their place. \<^verbatim>\<open>AddressFromString\<close> answers \<^verbatim>\<open>None\<close> where the Go function
  returns an error.
\<close>

type_synonym Address = "byte list"

record 'f Builder =
  AddressFromString :: "string \<Rightarrow> Address option"
  EncodeToPubKeyHash :: "Address \<Rightarrow> byte list"
  MaxMoney :: int
  mulF :: "'f \<Rightarrow> 'f \<Rightarrow> 'f"
  ofIntF :: "int \<Rightarrow> 'f"
  toInt64F :: "'f \<Rightarrow> int"

text \<open>
  The command of \<^verbatim>\<open>createrawtransaction\<close>. \<^verbatim>\<open>Vout\<close> is the argument of
  \<^verbatim>\<open>outpoint.NewOutPoint\<close>, whose index is a \<^verbatim>\<open>uint32\<close>. \<^verbatim>\<open>Amounts\<close> is a Go map; the
  list gives its entries in the order the \<^verbatim>\<open>range\<close> loop visits them.
\<close>

record TransactionInput =
  inTxid :: string
  inVout :: "32 word"

record 'f CreateRawTransactionCmd =
  cmdInputs :: "TransactionInput list"
  cmdAmounts :: "(string \<times> 'f) list"
  cmdLockTime :: "int option"

text \<open>\<^verbatim>\<open>wire.MaxTxInSequenceNum\<close> is the largest \<^verbatim>\<open>uint32\<close>.\<close>

definition MaxTxInSequenceNum :: int where
  "MaxTxInSequenceNum = 4294967295"

text \<open>
  Modelled from the spec: the function \<^verbatim>\<open>amount.MoneyRange\<close> is not among the sources.
  By section 4.4 the money range has the inclusive lower bound zero and a fixed upper
  bound.
\<close>

definition MoneyRange :: "'f Builder \<Rightarrow> int \<Rightarrow> bool" where
  "MoneyRange builder nValue = (0 \<le> nValue \<and> nValue \<le> MaxMoney builder)"

text \<open>
  Modelled from the spec: the methods of \<^verbatim>\<open>tx.Tx\<close> are not among the sources. By
  section 3 a transaction holds a lock time, the ordered inputs and the ordered
  outputs; the methods read or extend these fields, which a \<^verbatim>\<open>nil\<close> transaction does
  not have. \<^verbatim>\<open>Serialize\<close> writes to the buffer; the source discards its error.
\<close>

fun GetLockTime :: "Tx option \<Rightarrow> error + 32 word" where
  "GetLockTime None = Inl NilDereference"
| "GetLockTime (Some tx) = Inr (LockTime tx)"

fun AddTxIn :: "Tx option \<Rightarrow> TxIn \<Rightarrow> error + Tx option" where
  "AddTxIn None txin = Inl NilDereference"
| "AddTxIn (Some tx) txin = Inr (Some (tx\<lparr>ins := ins tx @ [txin]\<rparr>))"

fun AddTxOut :: "Tx option \<Rightarrow> TxOut \<Rightarrow> error + Tx option" where
  "AddTxOut None txout = Inl NilDereference"
| "AddTxOut (Some tx) txout = Inr (Some (tx\<lparr>outs := outs tx @ [txout]\<rparr>))"

fun SerializeTo :: "Codec \<Rightarrow> Tx option \<Rightarrow> error + byte list" where
  "SerializeTo codec None = Inl NilDereference"
| "SerializeTo codec (Some tx) =
     (case Serialize codec tx of None \<Rightarrow> Inr [] | Some bytes \<Rightarrow> Inr bytes)"

definition NewTxIn :: "OutPoint \<Rightarrow> byte list \<Rightarrow> 32 word \<Rightarrow> TxIn" where
  "NewTxIn prevout script sequence =
     \<lparr>PreviousOutPoint = prevout, scriptSig = script, Sequence = sequence\<rparr>"

definition NewTxOut :: "int \<Rightarrow> byte list \<Rightarrow> TxOut" where
  "NewTxOut v script = \<lparr>txValue = v, scriptPubKey = script\<rparr>"

text \<open>The loop over \<^verbatim>\<open>c.Inputs\<close>.\<close>

fun inputs_loop :: "Codec \<Rightarrow> TransactionInput list \<Rightarrow> Tx option \<Rightarrow> error + Tx option" where
  "inputs_loop codec [] transaction = Inr transaction"
| "inputs_loop codec (input # rest) transaction =
     (case GetHashFromStr codec (inTxid input) of
        None \<Rightarrow> Inl (rpcDecodeHexError (inTxid input))
      | Some hash \<Rightarrow>
          if uint (inVout input) < 0 then
            Inl (RPCError ErrInvalidParameter ''Invalid parameter, vout must be positive'')
          else
            (case GetLockTime transaction of
               Inl e \<Rightarrow> Inl e
             | Inr lockTime \<Rightarrow>
                 (let sequence = (if lockTime \<noteq> 0 then (0xFFFFFFFF - 1) else 0xFFFFFFFF);
                      txin = NewTxIn (NewOutPoint hash (inVout input)) [] sequence
                  in case AddTxIn transaction txin of
                       Inl e \<Rightarrow> Inl e
                     | Inr transaction' \<Rightarrow> inputs_loop codec rest transaction')))"

text \<open>
  The loop over \<^verbatim>\<open>c.Amounts\<close>: \<^verbatim>\<open>int64(cost * 1e8)\<close>, then the body up to the new
  output, then the loop.
\<close>

definition amountToInt64 :: "'f Builder \<Rightarrow> 'f \<Rightarrow> int" where
  "amountToInt64 builder cost = toInt64F builder (mulF builder cost (ofIntF builder 100000000))"

definition newAmountOut :: "'f Builder \<Rightarrow> string \<Rightarrow> 'f \<Rightarrow> error + TxOut" where
  "newAmountOut builder address cost =
     (case AddressFromString builder address of
        None \<Rightarrow> Inl (RPCError ErrRPCInvalidAddressOrKey (''Invalid Bitcoin address: '' @ address))
      | Some addr \<Rightarrow>
          (let outValue = amountToInt64 builder cost in
           if \<not> MoneyRange builder outValue then
             Inl (RPCError ErrInvalidParameter ''Invalid amount'')
           else Inr (NewTxOut outValue (EncodeToPubKeyHash builder addr))))"

fun amounts_loop :: "'f Builder \<Rightarrow> (string \<times> 'f) list \<Rightarrow> Tx option \<Rightarrow> error + Tx option" where
  "amounts_loop builder [] transaction = Inr transaction"
| "amounts_loop builder ((address, cost) # rest) transaction =
     (case newAmountOut builder address cost of
        Inl e \<Rightarrow> Inl e
      | Inr out \<Rightarrow>
          (case AddTxOut transaction out of
             Inl e \<Rightarrow> Inl e
           | Inr transaction' \<Rightarrow> amounts_loop builder rest transaction'))"

text \<open>
  \<^verbatim>\<open>handleCreateRawTransaction\<close>. The variable is declared \<^verbatim>\<open>var transaction *tx.Tx\<close>,
  so it is \<^verbatim>\<open>nil\<close>. Its only assignment, \<^verbatim>\<open>transaction = tx.NewTx(...)\<close>, stands after
  the \<^verbatim>\<open>return\<close> of the lock-time branch and is never run.
\<close>

definition handleCreateRawTransaction ::
  "Codec \<Rightarrow> 'f Builder \<Rightarrow> 'f CreateRawTransactionCmd \<Rightarrow> error + string" where
  "handleCreateRawTransaction codec builder c =
     (let transaction = (None :: Tx option) in
      if (case cmdLockTime c of
            None \<Rightarrow> False
          | Some lockTime \<Rightarrow> lockTime < 0 \<or> lockTime > MaxTxInSequenceNum) then
        Inl (RPCError ErrRPCInvalidParameter ''Locktime out of range'')
      else
        (case inputs_loop codec (cmdInputs c) transaction of
           Inl e \<Rightarrow> Inl e
         | Inr transaction1 \<Rightarrow>
             (case amounts_loop builder (cmdAmounts c) transaction1 of
                Inl e \<Rightarrow> Inl e
              | Inr transaction2 \<Rightarrow>
                  (case SerializeTo codec transaction2 of
                     Inl e \<Rightarrow> Inl e
                   | Inr bytes \<Rightarrow> Inr (EncodeToString bytes)))))"

text \<open>
  Sample values for the runs below. The sample builder computes with exact rational
  numbers.
\<close>

definition sampleTxid :: string where
  "sampleTxid = ''0000000000000000000000000000000000000000000000000000000000000001''"

definition sampleAddress :: string where
  "sampleAddress = ''1BitcoinEaterAddressDontSendf59kuE''"

definition builderCodec :: Codec where
  "builderCodec =
     \<lparr>Unserialize = (\<lambda>_. None),
      Serialize = (\<lambda>_. Some []),
      SerializeSize = (\<lambda>_. 0),
      IsCoinBase = (\<lambda>_. False),
      GetHashFromStr = (\<lambda>s. if s = sampleTxid then Some 1 else None),
      HashToString = (\<lambda>_. sampleTxid)\<rparr>"

definition exactBuilder :: "rat Builder" where
  "exactBuilder =
     \<lparr>AddressFromString = (\<lambda>s. if s = sampleAddress then Some [0] else None),
      EncodeToPubKeyHash = (\<lambda>a. a),
      MaxMoney = 2100000000000000,
      mulF = (\<lambda>x y. x * y),
      ofIntF = of_int,
      toInt64F = (\<lambda>x. if 0 \<le> x then \<lfloor>x\<rfloor> else \<lceil>x\<rceil>)\<rparr>"

text \<open>
  The transaction is still \<^verbatim>\<open>nil\<close> after both loops, so no request at all is answered
  with a serialized transaction.
\<close>

lemma inputs_loop_nil_tx:
  "inputs_loop codec inputs None = Inr t \<Longrightarrow> t = None"
  by (cases inputs) (auto split: option.splits if_splits)

lemma amounts_loop_nil_tx:
  "amounts_loop builder amounts None = Inr t \<Longrightarrow> t = None"
  by (cases amounts) (auto split: sum.splits)

lemma handleCreateRawTransaction_never_succeeds:
  "handleCreateRawTransaction codec builder c \<noteq> Inr s"
  by (auto simp: handleCreateRawTransaction_def Let_def
      split: sum.splits dest!: inputs_loop_nil_tx amounts_loop_nil_tx)



text \<open>
  C4. Three valid requests: one input and one destination, no lock time; one
  destination and lock time 0; nothing at all. Each ends in a \<^verbatim>\<open>nil\<close> dereference
  (\<^verbatim>\<open>GetLockTime\<close>, \<^verbatim>\<open>AddTxOut\<close>, \<^verbatim>\<open>Serialize\<close>) and returns no serialized
  transaction to read back.
\<close>

theorem handleCreateRawTransaction_valid_request:
  "handleCreateRawTransaction builderCodec exactBuilder
     \<lparr>cmdInputs = [\<lparr>inTxid = sampleTxid, inVout = 0\<rparr>],
      cmdAmounts = [(sampleAddress, 1)],
      cmdLockTime = None\<rparr> = Inl NilDereference \<and>
   handleCreateRawTransaction builderCodec exactBuilder
     \<lparr>cmdInputs = [], cmdAmounts = [(sampleAddress, 1)], cmdLockTime = Some 0\<rparr> =
     Inl NilDereference \<and>
   handleCreateRawTransaction builderCodec exactBuilder
     \<lparr>cmdInputs = [], cmdAmounts = [], cmdLockTime = None\<rparr> = Inl NilDereference"
  by (simp add: handleCreateRawTransaction_def builderCodec_def exactBuilder_def
      newAmountOut_def amountToInt64_def MoneyRange_def MaxTxInSequenceNum_def)

text \<open>
  With no inputs, an amount outside the money range in the first destination is
  answered by the handler itself with \<^verbatim>\<open>ErrInvalidParameter\<close>.
\<close>

lemma handleCreateRawTransaction_rejects_amount:
  "cmdInputs c = [] \<Longrightarrow> cmdAmounts c = (address, cost) # rest \<Longrightarrow>
   (case cmdLockTime c of None \<Rightarrow> True | Some l \<Rightarrow> 0 \<le> l \<and> l \<le> MaxTxInSequenceNum) \<Longrightarrow>
   AddressFromString builder address = Some addr \<Longrightarrow>
   \<not> MoneyRange builder (amountToInt64 builder cost) \<Longrightarrow>
   handleCreateRawTransaction codec builder c = Inl (RPCError ErrInvalidParameter ''Invalid amount'')"
  by (auto simp: handleCreateRawTransaction_def newAmountOut_def Let_def split: option.splits)

section \<open>The script disassembler\<close>

unbundle bit_operations_syntax

text \<open>
  The script package is not among the sources; the disassembler takes what it calls
  as a record. \<^verbatim>\<open>GetOp\<close> receives the script and the index and answers \<^verbatim>\<open>None\<close> for
  \<^verbatim>\<open>false\<close>, else the index, the opcode and the payload it has stored through its
  pointer arguments. \<^verbatim>\<open>GetCScriptNum\<close> answers the \<^verbatim>\<open>Value\<close> of the number it returns,
  \<^verbatim>\<open>None\<close> for a \<^verbatim>\<open>nil\<close> number. The calls themselves are taken to return.
\<close>

record ScriptLib =
  GetOp :: "byte list \<Rightarrow> nat \<Rightarrow> (nat \<times> byte \<times> byte list) option"
  GetCScriptNum :: "byte list \<Rightarrow> bool \<Rightarrow> nat \<Rightarrow> int option"
  DefaultMaxNumSize :: nat
  IsUnspendable :: "byte list \<Rightarrow> bool"
  CheckSignatureEncoding :: "byte list \<Rightarrow> 32 word \<Rightarrow> bool"
  ScriptVerifyStrictEnc :: "32 word"
  ScriptEnableSigHashForkId :: "32 word"
  SigHashForkID :: byte
  GetOpName :: "int \<Rightarrow> string"
  OP_PUSHDATA4 :: byte

text \<open>\<^verbatim>\<open>fmt.Sprintf("%d", v)\<close>: the decimal digits, after a minus sign below zero.\<close>

definition decDigit :: "nat \<Rightarrow> char" where
  "decDigit n = ''0123456789'' ! n"

function showNat :: "nat \<Rightarrow> string" where
  "showNat n = (if n < 10 then [decDigit n] else showNat (n div 10) @ [decDigit (n mod 10)])"
  by pat_completeness auto
termination
  by (relation "measure (\<lambda>n. n)") auto

declare showNat.simps [simp del]

definition Sprintf_d :: "int \<Rightarrow> string" where
  "Sprintf_d v = (if v < 0 then ''-'' @ showNat (nat (- v)) else showNat (nat v))"

text \<open>
  The body of the loop after a successful \<^verbatim>\<open>GetOp\<close>: the token appended for one
  operation. The block that would fill \<^verbatim>\<open>strSigHashDecode\<close> is commented out in the
  source, so the string stays empty.
\<close>

definition asm_token :: "ScriptLib \<Rightarrow> byte list \<Rightarrow> bool \<Rightarrow> byte \<Rightarrow> byte list \<Rightarrow> error + string" where
  "asm_token lib b attemptSighashDecode opcode vch =
     (if 0 \<le> uint opcode \<and> opcode \<le> OP_PUSHDATA4 lib then
        (if length vch \<le> 4 then
           (case GetCScriptNum lib vch False (DefaultMaxNumSize lib) of
              None \<Rightarrow> Inl NilDereference
            | Some v \<Rightarrow> Inr (Sprintf_d v))
         else if attemptSighashDecode \<and> \<not> IsUnspendable lib b then
           (let strSigHashDecode = '''';
                flags = (if last vch AND SigHashForkID lib \<noteq> 0
                         then ScriptVerifyStrictEnc lib OR ScriptEnableSigHashForkId lib
                         else ScriptVerifyStrictEnc lib);
                ok = CheckSignatureEncoding lib vch flags
            in Inr (EncodeToString vch @ strSigHashDecode))
         else Inr (EncodeToString vch))
      else Inr (GetOpName lib (uint opcode)))"

text \<open>
  The loop of \<^verbatim>\<open>ScriptToAsmStr\<close>. \<^verbatim>\<open>GetOp\<close> moves the index and the loop statement
  increments it once more. Whether the loop ends depends on where \<^verbatim>\<open>GetOp\<close> leaves
  the index, so the result is an option: \<^verbatim>\<open>None\<close> for a run that never returns.
\<close>

partial_function (option) asm_loop ::
  "ScriptLib \<Rightarrow> byte list \<Rightarrow> bool \<Rightarrow> nat \<Rightarrow> string \<Rightarrow> (error + string) option" where
  "asm_loop lib b attemptSighashDecode i str =
     (if i < length b then
        (let str1 = (if length str \<noteq> 0 then str @ '' '' else str) in
         case GetOp lib b i of
           None \<Rightarrow> Some (Inr (str1 @ ''[error]''))
         | Some (i', opcode, vch) \<Rightarrow>
             (case asm_token lib b attemptSighashDecode opcode vch of
                Inl e \<Rightarrow> Some (Inl e)
              | Inr token \<Rightarrow> asm_loop lib b attemptSighashDecode (Suc i') (str1 @ token)))
      else Some (Inr str))"

definition ScriptToAsmStr :: "ScriptLib \<Rightarrow> byte list \<Rightarrow> bool \<Rightarrow> (error + string) option" where
  "ScriptToAsmStr lib s attemptSighashDecode = asm_loop lib s attemptSighashDecode 0 []"

text \<open>
  The states of the loop in a run of \<^verbatim>\<open>ScriptToAsmStr\<close>: the index and the string
  produced so far at the head of an iteration.
\<close>

inductive asm_reaches :: "ScriptLib \<Rightarrow> byte list \<Rightarrow> bool \<Rightarrow> nat \<Rightarrow> string \<Rightarrow> bool"
  for lib :: ScriptLib and b :: "byte list" and a :: bool where
  start: "asm_reaches lib b a 0 []"
| step: "asm_reaches lib b a i str \<Longrightarrow> i < length b \<Longrightarrow>
         GetOp lib b i = Some (i', opcode, vch) \<Longrightarrow>
         asm_token lib b a opcode vch = Inr token \<Longrightarrow>
         asm_reaches lib b a (Suc i') ((if length str \<noteq> 0 then str @ '' '' else str) @ token)"

text \<open>
  What the statements below ask of the decoder: \<^verbatim>\<open>GetOp\<close> never moves the index
  backwards, and \<^verbatim>\<open>GetCScriptNum\<close> returns a number for a payload of at most four
  bytes.
\<close>

definition decoderAdvances :: "ScriptLib \<Rightarrow> byte list \<Rightarrow> bool" where
  "decoderAdvances lib b =
     (\<forall>i i' opcode vch. GetOp lib b i = Some (i', opcode, vch) \<longrightarrow> i \<le> i')"

definition smallNumbersDecode :: "ScriptLib \<Rightarrow> bool" where
  "smallNumbersDecode lib =
     (\<forall>vch. length vch \<le> 4 \<longrightarrow> GetCScriptNum lib vch False (DefaultMaxNumSize lib) \<noteq> None)"

lemma asm_token_returns:
  "smallNumbersDecode lib \<Longrightarrow> \<exists>token. asm_token lib b a opcode vch = Inr token"
  by (auto simp: asm_token_def smallNumbersDecode_def Let_def)

lemma asm_loop_returns:
  assumes adv: "decoderAdvances lib b" and num: "smallNumbersDecode lib"
  shows "\<exists>out. asm_loop lib b a i str = Some (Inr out)"
proof (induction "length b - i" arbitrary: i str rule: less_induct)
  case less
  show ?case
  proof (cases "i < length b")
    case False
    then show ?thesis by (subst asm_loop.simps) simp
  next
    case True
    let ?str1 = "if length str \<noteq> 0 then str @ '' '' else str"
    show ?thesis
    proof (cases "GetOp lib b i")
      case None
      then show ?thesis using True by (subst asm_loop.simps) simp
    next
      case (Some r)
      obtain i' opcode vch where r: "r = (i', opcode, vch)" by (cases r) auto
      have le: "i \<le> i'" using adv Some r by (auto simp: decoderAdvances_def)
      obtain token where t: "asm_token lib b a opcode vch = Inr token"
        using asm_token_returns [OF num] by blast
      have "length b - Suc i' < length b - i" using le True by simp
      then obtain out where "asm_loop lib b a (Suc i') (?str1 @ token) = Some (Inr out)"
        using less by blast
      then show ?thesis
        using True Some r t by (subst asm_loop.simps) (simp add: Let_def)
    qed
  qed
qed

lemma asm_loop_error:
  "i < length b \<Longrightarrow> GetOp lib b i = None \<Longrightarrow>
   asm_loop lib b a i str = Some (Inr ((if str = [] then str else str @ '' '') @ ''[error]''))"
  by (subst asm_loop.simps) simp

lemma asm_reaches_same_result:
  "asm_reaches lib b a i str \<Longrightarrow> asm_loop lib b a i str = ScriptToAsmStr lib b a"
proof (induction rule: asm_reaches.induct)
  case start
  show ?case by (simp add: ScriptToAsmStr_def)
next
  case (step i str i' opcode vch token)
  have "asm_loop lib b a i str =
        asm_loop lib b a (Suc i') ((if length str \<noteq> 0 then str @ '' '' else str) @ token)"
    using step.hyps(2,3,4) by (subst asm_loop.simps) (simp add: Let_def)
  with step.IH show ?case by simp
qed

text \<open>
  C6. For every byte sequence \<^verbatim>\<open>ScriptToAsmStr\<close> returns a string: it ends and does
  not fault. When \<^verbatim>\<open>GetOp\<close> fails in a state the run reaches, the result of the run is
  the string produced so far, a separating space if that string is not empty, and the
  token \<^verbatim>\<open>[error]\<close>; nothing is decoded after it.
\<close>

theorem ScriptToAsmStr_never_raises:
  "decoderAdvances lib s \<Longrightarrow> smallNumbersDecode lib \<Longrightarrow>
   (\<exists>out. ScriptToAsmStr lib s attemptSighashDecode = Some (Inr out)) \<and>
   (\<forall>i str. asm_reaches lib s attemptSighashDecode i str \<and> i < length s \<and> GetOp lib s i = None \<longrightarrow>
      ScriptToAsmStr lib s attemptSighashDecode =
        Some (Inr ((if str = [] then str else str @ '' '') @ ''[error]'')))"
proof (intro conjI allI impI)
  assume "decoderAdvances lib s" and "smallNumbersDecode lib"
  then show "\<exists>out. ScriptToAsmStr lib s attemptSighashDecode = Some (Inr out)"
    unfolding ScriptToAsmStr_def by (rule asm_loop_returns)
next
  fix i str
  assume r: "asm_reaches lib s attemptSighashDecode i str \<and> i < length s \<and> GetOp lib s i = None"
  then have "asm_loop lib s attemptSighashDecode i str =
      Some (Inr ((if str = [] then str else str @ '' '') @ ''[error]''))"
    by (intro asm_loop_error) simp_all
  moreover have "asm_loop lib s attemptSighashDecode i str = ScriptToAsmStr lib s attemptSighashDecode"
    using r by (intro asm_reaches_same_result) simp
  ultimately show "ScriptToAsmStr lib s attemptSighashDecode =
      Some (Inr ((if str = [] then str else str @ '' '') @ ''[error]''))"
    by simp
qed

text \<open>
  A sample decoder: a byte up to 75 pushes that many bytes, any other byte is a plain
  opcode; it leaves the index on the last byte it has read.
\<close>

definition sampleGetOp :: "byte list \<Rightarrow> nat \<Rightarrow> (nat \<times> byte \<times> byte list) option" where
  "sampleGetOp b i =
     (if i < length b then
        (let opcode = b ! i in
         if opcode \<le> 75 then
           (if i + unat opcode < length b
            then Some (i + unat opcode, opcode, take (unat opcode) (drop (Suc i) b))
            else None)
         else Some (i, opcode, []))
      else None)"

definition sampleLib :: ScriptLib where
  "sampleLib =
     \<lparr>GetOp = sampleGetOp,
      GetCScriptNum = (\<lambda>vch _ _. Some (int (foldr (\<lambda>x acc. unat x + 256 * acc) vch 0))),
      DefaultMaxNumSize = 4,
      IsUnspendable = (\<lambda>_. False),
      CheckSignatureEncoding = (\<lambda>_ _. False),
      ScriptVerifyStrictEnc = 2,
      ScriptEnableSigHashForkId = 65536,
      SigHashForkID = 64,
      GetOpName = (\<lambda>n. if n = 118 then ''OP_DUP'' else ''OP_UNKNOWN''),
      OP_PUSHDATA4 = 78\<rparr>"

definition sampleScript :: "byte list" where
  "sampleScript = [1, 5, 118, 2, 170]"

lemma sampleLib_advances: "decoderAdvances sampleLib b"
  by (auto simp: decoderAdvances_def sampleLib_def sampleGetOp_def Let_def split: if_splits)

lemma sampleLib_numbers: "smallNumbersDecode sampleLib"
  by (simp add: smallNumbersDecode_def sampleLib_def)

lemma showNat_5: "showNat 5 = ''5''"
  by (subst showNat.simps) (simp add: decDigit_def)

lemma sample_reaches: "asm_reaches sampleLib sampleScript True 3 ''5 OP_DUP''"
proof -
  have g0: "GetOp sampleLib sampleScript 0 = Some (1, 1, [5])"
    by (simp add: sampleLib_def sampleGetOp_def sampleScript_def)
  have t0: "asm_token sampleLib sampleScript True 1 [5] = Inr ''5''"
    by (simp add: asm_token_def sampleLib_def Sprintf_d_def showNat_5)
  have r1: "asm_reaches sampleLib sampleScript True 2 ''5''"
    using asm_reaches.step [OF asm_reaches.start _ g0 t0]
    by (simp add: sampleScript_def numeral_2_eq_2)
  have g2: "GetOp sampleLib sampleScript 2 = Some (2, 118, [])"
    by (simp add: sampleLib_def sampleGetOp_def sampleScript_def)
  have t2: "asm_token sampleLib sampleScript True 118 [] = Inr ''OP_DUP''"
    by (simp add: asm_token_def sampleLib_def)
  show ?thesis
    using asm_reaches.step [OF r1 _ g2 t2]
    by (simp add: sampleScript_def numeral_3_eq_3)
qed

theorem ScriptToAsmStr_never_raises_witness:
  "ScriptToAsmStr sampleLib sampleScript True = Some (Inr ''5 OP_DUP [error]'')"
proof -
  have g3: "GetOp sampleLib sampleScript 3 = None"
    by (simp add: sampleLib_def sampleGetOp_def sampleScript_def)
  have l: "3 < length sampleScript" by (simp add: sampleScript_def)
  show ?thesis
    using ScriptToAsmStr_never_raises [OF sampleLib_advances sampleLib_numbers, of sampleScript True]
      sample_reaches g3 l
    by fastforce
qed

section \<open>The verbose answer of getrawtransaction\<close>

text \<open>
  The command and the JSON result. A field of the result that the source does not
  assign keeps Go's zero value: the empty string, 0.
\<close>

record GetRawTransactionCmd =
  cmdTxid :: string
  cmdVerbose :: "int option"

record Vin =
  vinCoinbase :: string
  vinTxid :: string
  vinVout :: "32 word"
  vinAsm :: string
  vinHex :: string
  vinSequence :: "32 word"

datatype ScriptPubKeyResult = ScriptPubKeyResult

record Vout =
  voutValue :: int
  voutN :: "32 word"
  voutScriptPubKey :: ScriptPubKeyResult

record TxRawResult =
  rawTxID :: string
  rawHash :: string
  rawSize :: int
  rawVersion :: int
  rawLockTime :: "32 word"
  rawVin :: "Vin list"
  rawVout :: "Vout list"
  rawBlockHash :: string
  rawConfirmations :: int
  rawTime :: int
  rawBlocktime :: int

datatype reply = HexReply string | RawResultReply TxRawResult

text \<open>
  Modelled from the spec: the method \<^verbatim>\<open>Hash.IsNull\<close> is not among the sources. By
  section 4.2 the locator answers a confirming block hash or its absence, and by
  section 6 the block hash, the confirmations and the two times of the verbose result
  are optional; the absent (\<^verbatim>\<open>nil\<close>) hash is a null one and the call on it does not
  fault. A hash that is present is null when all its bytes are zero.
\<close>

fun IsNull :: "Hash option \<Rightarrow> bool" where
  "IsNull None = True"
| "IsNull (Some h) = (h = 0)"

text \<open>\<^verbatim>\<open>ScriptPubKeyToJSON\<close> returns the empty result in the source.\<close>

definition ScriptPubKeyToJSON :: "byte list \<Rightarrow> bool \<Rightarrow> ScriptPubKeyResult" where
  "ScriptPubKeyToJSON script includeHex = ScriptPubKeyResult"

text \<open>
  \<^verbatim>\<open>createVinList\<close>, one entry for each input; the disassembly of a signature script
  may not return, so the list is an option as well.
\<close>

definition emptyVin :: Vin where
  "emptyVin = \<lparr>vinCoinbase = [], vinTxid = [], vinVout = 0, vinAsm = [], vinHex = [],
               vinSequence = 0\<rparr>"

fun createVinList_loop ::
  "Codec \<Rightarrow> ScriptLib \<Rightarrow> bool \<Rightarrow> TxIn list \<Rightarrow> (error + Vin list) option" where
  "createVinList_loop codec lib coinbase [] = Some (Inr [])"
| "createVinList_loop codec lib coinbase (txin # rest) =
     (case (if coinbase then
              Some (Inr (emptyVin\<lparr>vinCoinbase := EncodeToString (scriptSig txin)\<rparr>))
            else
              (case ScriptToAsmStr lib (scriptSig txin) True of
                 None \<Rightarrow> None
               | Some (Inl e) \<Rightarrow> Some (Inl e)
               | Some (Inr asm) \<Rightarrow>
                   Some (Inr (emptyVin
                     \<lparr>vinTxid := HashToString codec (Hash (PreviousOutPoint txin)),
                      vinVout := Index (PreviousOutPoint txin),
                      vinAsm := asm,
                      vinHex := EncodeToString (scriptSig txin)\<rparr>)))) of
        None \<Rightarrow> None
      | Some (Inl e) \<Rightarrow> Some (Inl e)
      | Some (Inr vin) \<Rightarrow>
          (case createVinList_loop codec lib coinbase rest of
             None \<Rightarrow> None
           | Some (Inl e) \<Rightarrow> Some (Inl e)
           | Some (Inr vins) \<Rightarrow> Some (Inr (vin\<lparr>vinSequence := Sequence txin\<rparr> # vins))))"

definition createVinList :: "Codec \<Rightarrow> ScriptLib \<Rightarrow> Tx \<Rightarrow> (error + Vin list) option" where
  "createVinList codec lib tx = createVinList_loop codec lib (IsCoinBase codec tx) (ins tx)"

text \<open>\<^verbatim>\<open>createVoutList\<close>: the loop over the output indices below \<^verbatim>\<open>GetOutsCount\<close>.\<close>

definition createVoutList :: "Tx \<Rightarrow> Vout list" where
  "createVoutList tx =
     map (\<lambda>i. let out = outs tx ! i in
               \<lparr>voutValue = txValue out, voutN = of_nat i,
                voutScriptPubKey = ScriptPubKeyToJSON (scriptPubKey out) True\<rparr>)
         [0..<GetOutsCount tx]"

text \<open>
  \<^verbatim>\<open>createTxRawResult\<close>. Inside the branch of a non-null block hash the source calls
  \<^verbatim>\<open>hashBlock.ToString()\<close> and dereferences \<^verbatim>\<open>*hashBlock\<close>.
\<close>

definition createTxRawResult ::
  "Node \<Rightarrow> Codec \<Rightarrow> ScriptLib \<Rightarrow> Tx \<Rightarrow> Hash option \<Rightarrow> (error + TxRawResult) option" where
  "createTxRawResult node codec lib tx hashBlock =
     (case createVinList codec lib tx of
        None \<Rightarrow> None
      | Some (Inl e) \<Rightarrow> Some (Inl e)
      | Some (Inr vinList) \<Rightarrow>
          (let hash = TxHash node tx;
               txReply =
                 \<lparr>rawTxID = HashToString codec hash,
                  rawHash = HashToString codec hash,
                  rawSize = int (SerializeSize codec tx),
                  rawVersion = Version tx,
                  rawLockTime = LockTime tx,
                  rawVin = vinList,
                  rawVout = createVoutList tx,
                  rawBlockHash = [],
                  rawConfirmations = 0,
                  rawTime = 0,
                  rawBlocktime = 0\<rparr>
           in if \<not> IsNull hashBlock then
                (case hashBlock of
                   None \<Rightarrow> Some (Inl NilDereference)
                 | Some h \<Rightarrow>
                     (let txReply1 = txReply\<lparr>rawBlockHash := HashToString codec h\<rparr> in
                      case FindBlockIndex node h of
                        None \<Rightarrow> Some (Inr txReply1)
                      | Some bindex \<Rightarrow>
                          if Contains node bindex then
                            Some (Inr (txReply1
                              \<lparr>rawConfirmations := ChainHeight node - Height bindex + 1,
                               rawTime := uint (HeaderTime bindex),
                               rawBlocktime := uint (HeaderTime bindex)\<rparr>))
                          else Some (Inr (txReply1\<lparr>rawConfirmations := 0\<rparr>))))
              else Some (Inr txReply)))"

text \<open>\<^verbatim>\<open>handleGetRawTransaction\<close>.\<close>

definition handleGetRawTransaction ::
  "Node \<Rightarrow> Codec \<Rightarrow> ScriptLib \<Rightarrow> GetRawTransactionCmd \<Rightarrow> (error + reply) option" where
  "handleGetRawTransaction node codec lib c =
     (case GetHashFromStr codec (cmdTxid c) of
        None \<Rightarrow> Some (Inl (rpcDecodeHexError (cmdTxid c)))
      | Some txHash \<Rightarrow>
          (let verbose = (case cmdVerbose c of None \<Rightarrow> False | Some v \<Rightarrow> v \<noteq> 0) in
           case GetTransaction node txHash True of
             Inl e \<Rightarrow> Some (Inl e)
           | Inr (tx, hashBlock, ok) \<Rightarrow>
               if \<not> ok then
                 (if GTxIndex node then
                    Some (Inl (RPCError ErrRPCInvalidAddressOrKey
                      ''No such mempool or blockchain transaction''))
                  else
                    Some (Inl (RPCError ErrRPCInvalidAddressOrKey
                      ''No such mempool transaction. Use -txindex to enable blockchain transaction queries. Use gettransaction for wallet transactions.'')))
               else
                 (case tx of
                    None \<Rightarrow> Some (Inl NilDereference)
                  | Some t \<Rightarrow>
                      (case Serialize codec t of
                         None \<Rightarrow> Some (Inl (rpcDecodeHexError (cmdTxid c)))
                       | Some bytes \<Rightarrow>
                           (let strHex = EncodeToString bytes in
                            if \<not> verbose then Some (Inr (HexReply strHex))
                            else
                              (case createTxRawResult node codec lib t hashBlock of
                                 None \<Rightarrow> None
                               | Some (Inl e) \<Rightarrow> Some (Inl e)
                               | Some (Inr rawTxn) \<Rightarrow> Some (Inr (RawResultReply rawTxn))))))))"

text \<open>A pooled transaction with one input, and the pool that holds it under hash 1.\<close>

definition pooledTx :: Tx where
  "pooledTx =
     \<lparr>Version = 1, LockTime = 0,
      ins = [\<lparr>PreviousOutPoint = \<lparr>Hash = 7, Index = 0\<rparr>, scriptSig = sampleScript,
              Sequence = 4294967295\<rparr>],
      outs = [\<lparr>txValue = 10, scriptPubKey = []\<rparr>]\<rparr>"

definition pooledNode :: Node where
  "pooledNode = emptyNode\<lparr>Gpool := (\<lambda>_. None)(1 \<mapsto> \<lparr>Tx = pooledTx\<rparr>)\<rparr>"

text \<open>
  The decoder meets the two conditions of the disassembler on every signature script
  of the transaction.
\<close>

definition scriptsDecode :: "ScriptLib \<Rightarrow> Tx \<Rightarrow> bool" where
  "scriptsDecode lib tx =
     (smallNumbersDecode lib \<and> (\<forall>txin \<in> set (ins tx). decoderAdvances lib (scriptSig txin)))"

lemma createVinList_loop_returns:
  "smallNumbersDecode lib \<Longrightarrow> (\<forall>txin \<in> set inputs. decoderAdvances lib (scriptSig txin)) \<Longrightarrow>
   \<exists>vins. createVinList_loop codec lib coinbase inputs = Some (Inr vins)"
proof (induction inputs)
  case Nil
  show ?case by simp
next
  case (Cons txin rest)
  then obtain vins where v: "createVinList_loop codec lib coinbase rest = Some (Inr vins)"
    by auto
  have "decoderAdvances lib (scriptSig txin)" using Cons.prems(2) by simp
  then obtain asm where a: "ScriptToAsmStr lib (scriptSig txin) True = Some (Inr asm)"
    unfolding ScriptToAsmStr_def using asm_loop_returns [OF _ Cons.prems(1)] by blast
  show ?case using v a by (cases coinbase) simp_all
qed

lemma createTxRawResult_no_block:
  assumes "scriptsDecode lib tx"
  shows "\<exists>r. createTxRawResult node codec lib tx None = Some (Inr r) \<and>
     rawBlockHash r = [] \<and> rawConfirmations r = 0 \<and> rawTime r = 0 \<and> rawBlocktime r = 0"
proof -
  obtain vins where "createVinList codec lib tx = Some (Inr vins)"
    using assms createVinList_loop_returns [of lib "ins tx" codec "IsCoinBase codec tx"]
    by (auto simp: scriptsDecode_def createVinList_def)
  then show ?thesis
    by (simp add: createTxRawResult_def Let_def)
qed

text \<open>
  C10. For a transaction found in the pending pool, \<^verbatim>\<open>getrawtransaction\<close> with
  verbose requested returns and does not fault: the answer is a structured result
  whose block hash, confirmations, time and block time are left unset. The locator
  answers a \<^verbatim>\<open>nil\<close> block hash, and \<^verbatim>\<open>createTxRawResult\<close> takes the branch of the null
  hash.
\<close>

theorem handleGetRawTransaction_pooled_verbose:
  "GetHashFromStr codec (cmdTxid c) = Some txHash \<Longrightarrow>
   Gpool node txHash = Some entry \<Longrightarrow>
   cmdVerbose c = Some v \<Longrightarrow> v \<noteq> 0 \<Longrightarrow>
   Serialize codec (Tx entry) = Some bytes \<Longrightarrow>
   scriptsDecode lib (Tx entry) \<Longrightarrow>
   \<exists>r. handleGetRawTransaction node codec lib c = Some (Inr (RawResultReply r)) \<and>
       rawBlockHash r = [] \<and> rawConfirmations r = 0 \<and> rawTime r = 0 \<and> rawBlocktime r = 0"
proof -
  assume h: "GetHashFromStr codec (cmdTxid c) = Some txHash"
    and p: "Gpool node txHash = Some entry"
    and v: "cmdVerbose c = Some v" "v \<noteq> 0"
    and s: "Serialize codec (Tx entry) = Some bytes"
    and d: "scriptsDecode lib (Tx entry)"
  have g: "GetTransaction node txHash True = Inr (Some (Tx entry), None, True)"
    using p by (simp add: GetTransaction_def FindTx_def)
  obtain r where r: "createTxRawResult node codec lib (Tx entry) None = Some (Inr r)"
     "rawBlockHash r = []" "rawConfirmations r = 0" "rawTime r = 0" "rawBlocktime r = 0"
    using createTxRawResult_no_block [OF d] by blast
  have "handleGetRawTransaction node codec lib c = Some (Inr (RawResultReply r))"
    using h g v s r(1) by (simp add: handleGetRawTransaction_def)
  with r show ?thesis by blast
qed

theorem handleGetRawTransaction_pooled_verbose_witness:
  "\<exists>r. handleGetRawTransaction pooledNode builderCodec sampleLib
          \<lparr>cmdTxid = sampleTxid, cmdVerbose = Some 1\<rparr> = Some (Inr (RawResultReply r)) \<and>
       rawBlockHash r = [] \<and> rawConfirmations r = 0 \<and> rawTime r = 0 \<and> rawBlocktime r = 0"
proof -
  have h: "GetHashFromStr builderCodec (cmdTxid \<lparr>cmdTxid = sampleTxid, cmdVerbose = Some 1\<rparr>) = Some 1"
    by (simp add: builderCodec_def)
  have p: "Gpool pooledNode 1 = Some \<lparr>Tx = pooledTx\<rparr>"
    by (simp add: pooledNode_def)
  have v: "cmdVerbose \<lparr>cmdTxid = sampleTxid, cmdVerbose = Some 1\<rparr> = Some 1"
    by simp
  have s: "Serialize builderCodec (Tx \<lparr>Tx = pooledTx\<rparr>) = Some []"
    by (simp add: builderCodec_def)
  have d: "scriptsDecode sampleLib (Tx \<lparr>Tx = pooledTx\<rparr>)"
    by (simp add: scriptsDecode_def sampleLib_numbers sampleLib_advances)
  show ?thesis
    by (rule handleGetRawTransaction_pooled_verbose [OF h p v _ s d]) simp
qed

end
